theory Spec2Isabelle
  imports Complex_Main
begin

section \<open>JSON values and the JavaScript operations applied to them\<close>

text \<open>
  The component \<^verbatim>\<open>App\<close> of \<^verbatim>\<open>src/App.jsx\<close> handles values produced by
  \<^verbatim>\<open>JSON.parse\<close>. They are modelled by the datatype below; an object is the list of its
  own properties as the parser built it (one entry per key). Numbers are rationals: only
  their equality and their being zero matter here.
\<close>

datatype json =
    JNull
  | JBool bool
  | JNum rat
  | JStr string
  | JArr "json list"
  | JObj "(string \<times> json) list"

datatype js_error = SyntaxError | TypeError

text \<open>
  Reading a property \<^verbatim>\<open>v.k\<close> for one of the names \<^verbatim>\<open>id\<close>, \<^verbatim>\<open>message\<close>: on
  \<^verbatim>\<open>null\<close> it raises a TypeError, on an object it is the own property or
  \<^verbatim>\<open>undefined\<close> (here \<open>None\<close>), on every other JSON value it is \<^verbatim>\<open>undefined\<close>.
\<close>

fun get_prop :: "json \<Rightarrow> string \<Rightarrow> js_error + json option" where
  "get_prop JNull k = Inl TypeError"
| "get_prop (JObj kvs) k = Inr (map_of kvs k)"
| "get_prop v k = Inr None"

text \<open>JavaScript truthiness of a value that may be \<^verbatim>\<open>undefined\<close>.\<close>

fun truthy :: "json option \<Rightarrow> bool" where
  "truthy None = False"
| "truthy (Some JNull) = False"
| "truthy (Some (JBool b)) = b"
| "truthy (Some (JNum n)) = (n \<noteq> 0)"
| "truthy (Some (JStr s)) = (s \<noteq> [])"
| "truthy (Some (JArr xs)) = True"
| "truthy (Some (JObj kvs)) = True"

text \<open>
  Strict equality \<^verbatim>\<open>===\<close>. Primitives are compared by type and value. Arrays and objects
  are compared by reference; the two operands the component compares always come from
  different calls of \<^verbatim>\<open>JSON.parse\<close>, so two such operands are never the same reference.
\<close>

fun strict_eq :: "json option \<Rightarrow> json option \<Rightarrow> bool" where
  "strict_eq None w = (w = None)"
| "strict_eq (Some JNull) w = (w = Some JNull)"
| "strict_eq (Some (JBool a)) w = (w = Some (JBool a))"
| "strict_eq (Some (JNum a)) w = (w = Some (JNum a))"
| "strict_eq (Some (JStr a)) w = (w = Some (JStr a))"
| "strict_eq (Some (JArr xs)) w = False"
| "strict_eq (Some (JObj kvs)) w = False"

text \<open>
  \<^verbatim>\<open>String.prototype.trim\<close>, on strings whose characters are code units below 256: the
  white space and line terminator characters in that range are tab, line feed, vertical
  tab, form feed, carriage return, space and no-break space.
\<close>

definition is_space :: "char \<Rightarrow> bool" where
  "is_space c =
     (c \<in> set [CHR 0x09, CHR 0x0A, CHR 0x0B, CHR 0x0C, CHR 0x0D, CHR 0x20, CHR 0xA0])"

definition trim :: "string \<Rightarrow> string" where
  "trim s = rev (dropWhile is_space (rev (dropWhile is_space s)))"

text \<open>
  \<^verbatim>\<open>s.split('\n')\<close>: the segments between line feeds; the result is never empty, and its
  last element is what follows the last line feed. \<open>push_char\<close> puts a character in front
  of the first segment.
\<close>

fun push_char :: "char \<Rightarrow> string list \<Rightarrow> string list" where
  "push_char c [] = [[c]]"
| "push_char c (l # ls) = (c # l) # ls"

fun split_nl :: "string \<Rightarrow> string list" where
  "split_nl [] = [[]]"
| "split_nl (c # cs) =
     (if c = CHR 0x0A then [] # split_nl cs else push_char c (split_nl cs))"

text \<open>\<^verbatim>\<open>server.replace(/\/$/, '')\<close>: one trailing slash is removed.\<close>

definition strip_slash :: "string \<Rightarrow> string" where
  "strip_slash s = (if s \<noteq> [] \<and> last s = CHR ''/'' then butlast s else s)"

section \<open>The state of the component and its environment\<close>

text \<open>
  The entries written to the console by \<^verbatim>\<open>console.error\<close> and \<^verbatim>\<open>console.log\<close>, each
  with the text it is about (the topic, the URL or the offending line).
\<close>

datatype log_entry =
    LoadHistoryFailed string
  | Subscribed string
  | StreamParseFailed string
  | SubscriptionFailed string

text \<open>
  The React state of \<^verbatim>\<open>App\<close> that the subscription touches, together with the browser's
  \<^verbatim>\<open>localStorage\<close> (a map from keys to stored texts, whose operations succeed), the
  controller held by \<^verbatim>\<open>abortControllerRef\<close> (\<open>None\<close> when the ref is null, otherwise
  the \<^verbatim>\<open>aborted\<close> flag of its signal), the URLs requested so far, the console, and the
  errors raised inside state updaters, which no handler of the source catches.
\<close>

record app_state =
  server :: string
  topic :: string
  messages :: json
  connected :: bool
  errorInfo :: "string option"
  previousTopics :: json
  abortControllerRef :: "bool option"
  localStorage :: "string \<rightharpoonup> string"
  requests :: "string list"
  console :: "log_entry list"
  uncaught :: "js_error list"

text \<open>
  What \<^verbatim>\<open>reader.read()\<close> gives at one turn of the loop: a chunk of text (already
  decoded), the end of the body, or an exception with its \<^verbatim>\<open>name\<close>. \<open>AbortCalled\<close> is
  the effect cleanup (or a later \<^verbatim>\<open>subscribe\<close>) aborting the controller while the loop is
  suspended at \<^verbatim>\<open>await\<close>.
\<close>

datatype stream_event =
    Chunk string
  | Done
  | ReadThrows string
  | AbortCalled

datatype fetch_outcome =
    FetchThrows string
  | FetchResponse bool "stream_event list"

text \<open>
  The library and the network, which are not code of the repository: \<^verbatim>\<open>JSON.parse\<close>
  (\<open>None\<close> when it raises a SyntaxError), \<^verbatim>\<open>JSON.stringify\<close>, and what \<^verbatim>\<open>fetch\<close> does
  for a URL (it rejects with an error of some name, or yields a response with its
  \<^verbatim>\<open>ok\<close> flag and the events of its body).
\<close>

record env =
  JSON_parse :: "string \<Rightarrow> json option"
  JSON_stringify :: "json \<Rightarrow> string"
  fetch :: "string \<Rightarrow> fetch_outcome"

definition history_key :: "string \<Rightarrow> string" where
  "history_key tp = ''ntfy-history-'' @ tp"

section \<open>Loading persisted state\<close>

text \<open>
  The body of the \<^verbatim>\<open>try\<close> block at lines 124-126: the stored text is parsed when it is
  present and not the empty string.
\<close>

definition load_try :: "env \<Rightarrow> (string \<rightharpoonup> string) \<Rightarrow> string \<Rightarrow> js_error + json" where
  "load_try e store key =
     (case store key of
        None \<Rightarrow> Inr (JArr [])
      | Some saved \<Rightarrow>
          if saved = [] then Inr (JArr [])
          else (case JSON_parse e saved of
                  None \<Rightarrow> Inl SyntaxError
                | Some v \<Rightarrow> Inr v))"

text \<open>Lines 124-130: the \<^verbatim>\<open>catch\<close> logs and sets the empty history.\<close>

definition load_history :: "env \<Rightarrow> app_state \<Rightarrow> app_state" where
  "load_history e st =
     (case load_try e (localStorage st) (history_key (topic st)) of
        Inr v \<Rightarrow> st\<lparr>messages := v\<rparr>
      | Inl err \<Rightarrow> st\<lparr>console := console st @ [LoadHistoryFailed (topic st)],
                      messages := JArr []\<rparr>)"

text \<open>Lines 80-88: the initial value of \<^verbatim>\<open>previousTopics\<close>.\<close>

definition init_previousTopics :: "env \<Rightarrow> (string \<rightharpoonup> string) \<Rightarrow> json" where
  "init_previousTopics e store =
     (case load_try e store ''ntfy-previous-topics'' of
        Inr v \<Rightarrow> v
      | Inl err \<Rightarrow> JArr [])"

section \<open>Appending a record to the history\<close>

text \<open>
  \<^verbatim>\<open>prevMessages.some(msg => msg.id === parsedData.id)\<close>: the entries are visited from
  the first on, and the visit stops at the first one for which the callback is true.
\<close>

fun some_same_id :: "json list \<Rightarrow> json \<Rightarrow> js_error + bool" where
  "some_same_id [] parsedData = Inr False"
| "some_same_id (msg # ms) parsedData =
     (case get_prop msg ''id'' of
        Inl err \<Rightarrow> Inl err
      | Inr v \<Rightarrow>
          (case get_prop parsedData ''id'' of
             Inl err \<Rightarrow> Inl err
           | Inr pid \<Rightarrow> if strict_eq v pid then Inr True else some_same_id ms parsedData))"

text \<open>
  The updater passed to \<^verbatim>\<open>setMessages\<close> at lines 176-194 for the record \<open>parsedData\<close>.
  A history that is not an array has no method \<^verbatim>\<open>some\<close>. The desktop notification of
  lines 186-192 touches neither the history nor the store and is left out.
\<close>

definition append_updater :: "env \<Rightarrow> string \<Rightarrow> json \<Rightarrow> app_state \<Rightarrow> js_error + app_state" where
  "append_updater e tp parsedData st =
     (case messages st of
        JArr prevMessages \<Rightarrow>
          (case some_same_id prevMessages parsedData of
             Inl err \<Rightarrow> Inl err
           | Inr True \<Rightarrow> Inr st
           | Inr False \<Rightarrow>
               let newMessages = take 50 (parsedData # prevMessages)
               in Inr (st\<lparr>localStorage :=
                            (localStorage st)(history_key tp \<mapsto> JSON_stringify e (JArr newMessages)),
                          messages := JArr newMessages\<rparr>))
      | _ \<Rightarrow> Inl TypeError)"

text \<open>
  \<^verbatim>\<open>setMessages(updater)\<close>: the updater is applied to the current history. An exception
  inside it is not caught by the component; the state is then left as it was and the
  error is recorded.
\<close>

definition setMessages :: "(app_state \<Rightarrow> js_error + app_state) \<Rightarrow> app_state \<Rightarrow> app_state" where
  "setMessages upd st =
     (case upd st of
        Inr st' \<Rightarrow> st'
      | Inl err \<Rightarrow> st\<lparr>uncaught := uncaught st @ [err]\<rparr>)"

text \<open>
  The condition \<^verbatim>\<open>parsedData.id && parsedData.message\<close> of line 174; the second operand
  is read only when the first is truthy.
\<close>

definition has_id_and_message :: "json \<Rightarrow> js_error + bool" where
  "has_id_and_message parsedData =
     (case get_prop parsedData ''id'' of
        Inl err \<Rightarrow> Inl err
      | Inr i \<Rightarrow>
          if truthy i then
            (case get_prop parsedData ''message'' of
               Inl err \<Rightarrow> Inl err
             | Inr m \<Rightarrow> Inr (truthy m))
          else Inr False)"

text \<open>
  The body of the \<^verbatim>\<open>try\<close> block at lines 173-197 once the line is parsed; \<open>Inl\<close> is an
  exception that reaches the \<^verbatim>\<open>catch\<close> of line 198.
\<close>

definition handle_record :: "env \<Rightarrow> string \<Rightarrow> json \<Rightarrow> app_state \<Rightarrow> js_error + app_state" where
  "handle_record e tp parsedData st =
     (case has_id_and_message parsedData of
        Inl err \<Rightarrow> Inl err
      | Inr False \<Rightarrow> Inr st
      | Inr True \<Rightarrow> Inr (setMessages (append_updater e tp parsedData) st))"

text \<open>One turn of the \<^verbatim>\<open>for\<close> loop of lines 170-201.\<close>

definition process_line :: "env \<Rightarrow> string \<Rightarrow> string \<Rightarrow> app_state \<Rightarrow> app_state" where
  "process_line e tp line st =
     (if trim line = [] then st
      else
        (case (case JSON_parse e line of
                 None \<Rightarrow> Inl SyntaxError
               | Some parsedData \<Rightarrow> handle_record e tp parsedData st) of
           Inr st' \<Rightarrow> st'
         | Inl err \<Rightarrow> st\<lparr>console := console st @ [StreamParseFailed line]\<rparr>))"

fun process_lines :: "env \<Rightarrow> string \<Rightarrow> string list \<Rightarrow> app_state \<Rightarrow> app_state" where
  "process_lines e tp [] st = st"
| "process_lines e tp (line # ls) st = process_lines e tp ls (process_line e tp line st)"

section \<open>The read loop and \<^verbatim>\<open>subscribe\<close>\<close>

text \<open>
  Lines 166-168: the chunk is appended to the buffer, the buffer is split at line feeds,
  the last segment becomes the new buffer and the others are the complete lines.
\<close>

definition frame :: "string \<Rightarrow> string \<Rightarrow> string list \<times> string" where
  "frame buffer val =
     (let lines = split_nl (buffer @ val)
      in (butlast lines, last lines))"

text \<open>The complete lines the loop hands to the \<^verbatim>\<open>for\<close> loop over a sequence of chunks.\<close>

fun framed_lines :: "string \<Rightarrow> string list \<Rightarrow> string list" where
  "framed_lines buffer [] = []"
| "framed_lines buffer (val # vals) =
     fst (frame buffer val) @ framed_lines (snd (frame buffer val)) vals"

text \<open>The buffer the loop holds after a sequence of chunks.\<close>

fun final_buffer :: "string \<Rightarrow> string list \<Rightarrow> string" where
  "final_buffer buffer [] = buffer"
| "final_buffer buffer (val # vals) = final_buffer (snd (frame buffer val)) vals"

text \<open>The \<^verbatim>\<open>catch\<close> of lines 203-209, for an error of the given name.\<close>

definition subscribe_catch :: "string \<Rightarrow> string \<Rightarrow> app_state \<Rightarrow> app_state" where
  "subscribe_catch fetchUrl name st =
     (if name \<noteq> ''AbortError''
      then st\<lparr>console := console st @ [SubscriptionFailed fetchUrl],
              connected := False,
              errorInfo := Some ''Connection failed. Check console.''\<rparr>
      else st)"

text \<open>
  \<^verbatim>\<open>if (abortControllerRef.current) abortControllerRef.current.abort()\<close>, at lines
  113-115 and in the effect cleanup at lines 215-219.
\<close>

definition abort_current :: "app_state \<Rightarrow> app_state" where
  "abort_current st =
     st\<lparr>abortControllerRef := map_option (\<lambda>b. True) (abortControllerRef st)\<rparr>"

datatype loop_status = Reading string | Exited

text \<open>
  The \<^verbatim>\<open>while (true)\<close> loop of lines 156-202 over the events of the body. When the events
  seen so far are used up the loop is suspended in \<^verbatim>\<open>reader.read()\<close> with its buffer.
  While the loop runs, \<^verbatim>\<open>abortControllerRef\<close> holds the loop's own controller.
\<close>

fun read_loop ::
  "env \<Rightarrow> string \<Rightarrow> string \<Rightarrow> stream_event list \<Rightarrow> string \<Rightarrow> app_state
     \<Rightarrow> loop_status \<times> app_state" where
  "read_loop e fetchUrl tp [] buffer st = (Reading buffer, st)"
| "read_loop e fetchUrl tp (AbortCalled # evs) buffer st =
     read_loop e fetchUrl tp evs buffer (abort_current st)"
| "read_loop e fetchUrl tp (Done # evs) buffer st =
     (Exited,
      if abortControllerRef st \<noteq> Some True
      then st\<lparr>connected := False, errorInfo := Some ''Connection closed.''\<rparr>
      else st)"
| "read_loop e fetchUrl tp (ReadThrows name # evs) buffer st =
     (Exited, subscribe_catch fetchUrl name st)"
| "read_loop e fetchUrl tp (Chunk val # evs) buffer st =
     read_loop e fetchUrl tp evs (snd (frame buffer val))
       (process_lines e tp (fst (frame buffer val)) st)"

text \<open>\<^verbatim>\<open>subscribe\<close>, lines 112-210.\<close>

definition subscribe :: "env \<Rightarrow> app_state \<Rightarrow> app_state" where
  "subscribe e st0 =
     (let st1 = abort_current st0 in
      if trim (topic st1) = []
      then st1\<lparr>connected := False, errorInfo := Some ''Topic cannot be empty.''\<rparr>
      else
        let st2 = load_history e st1;
            fetchUrl = strip_slash (server st2) @ ''/'' @ topic st2 @ ''/json'';
            st3 = st2\<lparr>abortControllerRef := Some False,
                      requests := requests st2 @ [fetchUrl]\<rparr>
        in (case fetch e fetchUrl of
              FetchThrows name \<Rightarrow> subscribe_catch fetchUrl name st3
            | FetchResponse ok evs \<Rightarrow>
                if \<not> ok then subscribe_catch fetchUrl ''Error'' st3
                else snd (read_loop e fetchUrl (topic st3) evs []
                            (st3\<lparr>connected := True, errorInfo := None,
                                  console := console st3 @ [Subscribed fetchUrl]\<rparr>))))"

section \<open>Clearing the history and the recent topics\<close>

text \<open>\<^verbatim>\<open>handleClearMessages\<close>, lines 347-350.\<close>

definition handleClearMessages :: "app_state \<Rightarrow> app_state" where
  "handleClearMessages st =
     st\<lparr>messages := JArr [],
        localStorage := (localStorage st)(history_key (topic st) := None)\<rparr>"

text \<open>
  The updater passed to \<^verbatim>\<open>setPreviousTopics\<close> at lines 229-233, for the trimmed topic
  \<open>t\<close>; a value that is not an array has no method \<^verbatim>\<open>filter\<close>.
\<close>

definition topics_updater :: "env \<Rightarrow> string \<Rightarrow> app_state \<Rightarrow> js_error + app_state" where
  "topics_updater e t st =
     (case previousTopics st of
        JArr prevTopics \<Rightarrow>
          let newTopics =
                take 10 (JStr t # filter (\<lambda>x. \<not> strict_eq (Some x) (Some (JStr t))) prevTopics)
          in Inr (st\<lparr>localStorage :=
                       (localStorage st)(''ntfy-previous-topics'' \<mapsto> JSON_stringify e (JArr newTopics)),
                     previousTopics := JArr newTopics\<rparr>)
      | _ \<Rightarrow> Inl TypeError)"

text \<open>
  The effect of lines 223-235, which runs when \<^verbatim>\<open>topic\<close> has changed; the spec calls it
  \<^verbatim>\<open>recordTopicUse\<close>.
\<close>

definition recordTopicUse :: "env \<Rightarrow> app_state \<Rightarrow> app_state" where
  "recordTopicUse e st =
     (if trim (topic st) \<noteq> [] then
        let st1 = st\<lparr>localStorage := (localStorage st)(''ntfy-latest-topic'' \<mapsto> trim (topic st))\<rparr>
        in (case topics_updater e (trim (topic st)) st1 of
              Inr st' \<Rightarrow> st'
            | Inl err \<Rightarrow> st1\<lparr>uncaught := uncaught st1 @ [err]\<rparr>)
      else st)"

text \<open>\<^verbatim>\<open>handleTopicClick\<close> (line 237) and the input field: the topic is set.\<close>

definition setTopic :: "string \<Rightarrow> app_state \<Rightarrow> app_state" where
  "setTopic t st = st\<lparr>topic := t\<rparr>"

text \<open>The topic is set to each element of a list in turn, the effect running after each.\<close>

fun use_topics :: "env \<Rightarrow> string list \<Rightarrow> app_state \<Rightarrow> app_state" where
  "use_topics e [] st = st"
| "use_topics e (t # ts) st = use_topics e ts (recordTopicUse e (setTopic t st))"

section \<open>Notions used in the statements\<close>

text \<open>
  The \<^verbatim>\<open>id\<close> of a history entry or of a record, \<^verbatim>\<open>undefined\<close> when it has none. A
  record is valid when the test of line 174 is true for it: it is then an object whose
  \<^verbatim>\<open>id\<close> and \<^verbatim>\<open>message\<close> are both present and truthy.
\<close>

definition record_id :: "json \<Rightarrow> json option" where
  "record_id r = (case get_prop r ''id'' of Inr v \<Rightarrow> v | Inl err \<Rightarrow> None)"

definition valid_record :: "json \<Rightarrow> bool" where
  "valid_record r = (has_id_and_message r = Inr True)"







section \<open>Example data\<close>

definition ex_line1 :: string where
  \<open>ex_line1 = ''{"id":"1","time":1700000000,"message":"hi"}''\<close>

definition ex_line2 :: string where
  \<open>ex_line2 = ''{"id":"2","message":"yo"}''\<close>

definition ex_line3 :: string where
  \<open>ex_line3 = ''{"id":"3","title":"no body"}''\<close>

definition ex_line_bad :: string where
  \<open>ex_line_bad = ''{"id":"4","mess''\<close>

definition ex_rec1 :: json where
  "ex_rec1 = JObj [(''id'', JStr ''1''), (''time'', JNum 1700000000), (''message'', JStr ''hi'')]"

definition ex_rec2 :: json where
  "ex_rec2 = JObj [(''id'', JStr ''2''), (''message'', JStr ''yo'')]"

definition ex_rec3 :: json where
  "ex_rec3 = JObj [(''id'', JStr ''3''), (''title'', JStr ''no body'')]"

definition ex_text1 :: string where
  \<open>ex_text1 = ''[{"id":"1","time":1700000000,"message":"hi"}]''\<close>

definition ex_text21 :: string where
  \<open>ex_text21 = ''[{"id":"2","message":"yo"},{"id":"1","time":1700000000,"message":"hi"}]''\<close>

definition ex_line1b :: string where
  \<open>ex_line1b = ''{"id":"1","message":"hi"}''\<close>

definition ex_rec1b :: json where
  "ex_rec1b = JObj [(''id'', JStr ''1''), (''message'', JStr ''hi'')]"

text \<open>The first two lines, cut into three chunks: the first line is split, the second ends in the third chunk.\<close>

definition ex_chunks :: "string list" where
  "ex_chunks = [take 20 ex_line1, drop 20 ex_line1 @ [CHR 0x0A] @ ex_line2, [CHR 0x0A]]"

text \<open>
  A finite fragment of the JSON library, enough for the example lines and histories, and a
  server whose body arrives in these chunks and then ends.
\<close>

definition ex_env :: env where
  "ex_env =
     \<lparr>JSON_parse = map_of [(ex_line1, ex_rec1), (ex_line2, ex_rec2), (ex_line3, ex_rec3),
                            (ex_line1b, ex_rec1b),
                            (ex_text1, JArr [ex_rec1]), (ex_text21, JArr [ex_rec2, ex_rec1])],
      JSON_stringify = (\<lambda>v. if v = JArr [ex_rec1] then ex_text1
                             else if v = JArr [ex_rec2, ex_rec1] then ex_text21
                             else ''null''),
      fetch = (\<lambda>u. FetchResponse True (map Chunk ex_chunks @ [Done]))\<rparr>"

definition ex_state :: app_state where
  "ex_state =
     \<lparr>server = ''https://ntfy.sh/'', topic = ''news'', messages = JArr [],
      connected = False, errorInfo = None, previousTopics = JArr [],
      abortControllerRef = None, localStorage = Map.empty, requests = [],
      console = [], uncaught = []\<rparr>"

text \<open>The state once the connection is open, and a state whose history holds the first record.\<close>

definition ex_conn :: app_state where
  "ex_conn = ex_state\<lparr>abortControllerRef := Some False, connected := True\<rparr>"

definition ex_state1 :: app_state where
  "ex_state1 =
     ex_state\<lparr>messages := JArr [ex_rec1],
              localStorage := [history_key ''news'' \<mapsto> ex_text1, history_key ''other'' \<mapsto> ex_text21]\<rparr>"

definition ex_topics11 :: "string list" where
  "ex_topics11 = [''t1'', ''t2'', ''t3'', ''t4'', ''t5'', ''t6'', ''t7'', ''t8'', ''t9'',
                  ''t10'', ''t11'']"


section \<open>Line framing\<close>

lemma push_char_ne [simp]: "push_char c ls \<noteq> []"
  by (cases ls) auto

lemma split_nl_ne [simp]: "split_nl s \<noteq> []"
  by (induction s) auto

lemma split_nl_no_nl: "CHR 0x0A \<notin> set s \<Longrightarrow> split_nl s = [s]"
  by (induction s) auto

lemma last_split_nl_no_nl: "CHR 0x0A \<notin> set (last (split_nl s))"
proof (induction s)
  case Nil
  show ?case by simp
next
  case (Cons c s)
  obtain l ls where sp: "split_nl s = l # ls"
    by (cases "split_nl s") auto
  with Cons show ?case by (cases ls) auto
qed

text \<open>Splitting a text in two parts: the first part's last segment is continued by the second.\<close>

lemma split_nl_append:
  "split_nl (a @ b) = butlast (split_nl a) @ split_nl (last (split_nl a) @ b)"
proof (induction a)
  case Nil
  show ?case by simp
next
  case (Cons c a)
  show ?case
  proof (cases "c = CHR 0x0A")
    case True
    with Cons show ?thesis by simp
  next
    case False
    obtain l ls where sp: "split_nl a = l # ls"
      by (cases "split_nl a") auto
    show ?thesis
    proof (cases ls)
      case Nil
      with sp Cons False show ?thesis by simp
    next
      case (Cons l' ls')
      with sp Cons.IH False show ?thesis by simp
    qed
  qed
qed

lemma process_lines_append:
  "process_lines e tp (xs @ ys) st = process_lines e tp ys (process_lines e tp xs st)"
  by (induction xs arbitrary: st) auto

lemma framed_lines_split:
  "CHR 0x0A \<notin> set b \<Longrightarrow> framed_lines b vals = butlast (split_nl (b @ concat vals))"
proof (induction vals arbitrary: b)
  case Nil
  then show ?case by (simp add: split_nl_no_nl)
next
  case (Cons v vals)
  have "framed_lines (last (split_nl (b @ v))) vals
          = butlast (split_nl (last (split_nl (b @ v)) @ concat vals))"
    by (rule Cons.IH) (rule last_split_nl_no_nl)
  moreover have "split_nl ((b @ v) @ concat vals)
          = butlast (split_nl (b @ v)) @ split_nl (last (split_nl (b @ v)) @ concat vals)"
    by (rule split_nl_append)
  ultimately show ?case
    by (simp add: frame_def Let_def butlast_append)
qed

lemma final_buffer_split:
  "CHR 0x0A \<notin> set b \<Longrightarrow> final_buffer b vals = last (split_nl (b @ concat vals))"
proof (induction vals arbitrary: b)
  case Nil
  then show ?case by (simp add: split_nl_no_nl)
next
  case (Cons v vals)
  have "final_buffer (last (split_nl (b @ v))) vals
          = last (split_nl (last (split_nl (b @ v)) @ concat vals))"
    by (rule Cons.IH) (rule last_split_nl_no_nl)
  moreover have "split_nl ((b @ v) @ concat vals)
          = butlast (split_nl (b @ v)) @ split_nl (last (split_nl (b @ v)) @ concat vals)"
    by (rule split_nl_append)
  ultimately show ?case
    by (simp add: frame_def Let_def)
qed

text \<open>Over chunks only, the loop keeps reading and has processed the framed lines in order.\<close>

lemma read_loop_chunks:
  "read_loop e u tp (map Chunk vals) b st
     = (Reading (final_buffer b vals), process_lines e tp (framed_lines b vals) st)"
  by (induction vals arbitrary: b st) (auto simp: process_lines_append)

text \<open>
  Claim C2. The line framing does not depend on the chunking: for every list of chunks,
  the complete lines handed to the \<^verbatim>\<open>for\<close> loop, in order, are the segments of the whole
  text except the last one, which are also the lines obtained when the whole text arrives
  as one chunk; the loop started with an empty buffer ends with the same buffer and the
  same state in both cases. So a record cut by a chunk boundary is processed once its line
  is complete, and each of several records in one chunk is processed.
\<close>

theorem line_framing_chunking_invariant:
  "framed_lines [] vals = butlast (split_nl (concat vals))
   \<and> framed_lines [] vals = framed_lines [] [concat vals]
   \<and> read_loop e u tp (map Chunk vals) [] st = read_loop e u tp [Chunk (concat vals)] [] st"
proof -
  have a: "framed_lines [] vals = butlast (split_nl (concat vals))"
    using framed_lines_split [of "[]" vals] by simp
  have b: "framed_lines [] [concat vals] = butlast (split_nl (concat vals))"
    by (simp add: frame_def Let_def)
  have c: "final_buffer [] vals = final_buffer [] [concat vals]"
    using final_buffer_split [of "[]" vals] by (simp add: frame_def Let_def)
  have "read_loop e u tp (map Chunk vals) [] st
          = (Reading (final_buffer [] vals), process_lines e tp (framed_lines [] vals) st)"
    by (rule read_loop_chunks)
  moreover have "read_loop e u tp (map Chunk [concat vals]) [] st
          = (Reading (final_buffer [] [concat vals]),
             process_lines e tp (framed_lines [] [concat vals]) st)"
    by (rule read_loop_chunks)
  ultimately show ?thesis using a b c by simp
qed

section \<open>Appending records\<close>


lemma valid_record_iff:
  "valid_record r \<longleftrightarrow>
     (\<exists>kvs. r = JObj kvs \<and> truthy (map_of kvs ''id'') \<and> truthy (map_of kvs ''message''))"
  by (cases r) (auto simp: valid_record_def has_id_and_message_def)

lemma valid_record_not_null: "valid_record r \<Longrightarrow> r \<noteq> JNull"
  by (auto simp: valid_record_iff)

lemma get_prop_record_id: "m \<noteq> JNull \<Longrightarrow> get_prop m ''id'' = Inr (record_id m)"
  by (cases m) (auto simp: record_id_def)


lemma some_same_id_mem:
  "r \<noteq> JNull \<Longrightarrow> JNull \<notin> set h \<Longrightarrow> m \<in> set h
     \<Longrightarrow> strict_eq (record_id m) (record_id r)
     \<Longrightarrow> some_same_id h r = Inr True"
  by (induction h) (auto simp: get_prop_record_id)

lemma some_same_id_True:
  "r \<noteq> JNull \<Longrightarrow> JNull \<notin> set h
     \<Longrightarrow> \<exists>m \<in> set h. strict_eq (record_id m) (record_id r)
     \<Longrightarrow> some_same_id h r = Inr True"
  using some_same_id_mem by blast


lemma handle_record_valid:
  "valid_record r \<Longrightarrow> handle_record e tp r st = Inr (setMessages (append_updater e tp r) st)"
  by (simp add: handle_record_def valid_record_def)


lemma append_duplicate:
  assumes "messages st = JArr h" and "JNull \<notin> set h" and "r \<noteq> JNull"
    and "\<exists>m \<in> set h. strict_eq (record_id m) (record_id r)"
  shows "setMessages (append_updater e tp r) st = st"
  using assms some_same_id_True [of r h]
  by (simp add: setMessages_def append_updater_def)

text \<open>
  Claim C3. A valid record whose id is strictly equal to the id of an entry of the history
  changes nothing: the updater returns the state it was given, the same history included,
  with no entry added and none moved, and so do the handling of the record and of a line
  that parses to it. The entries of the history are JSON values other than \<^verbatim>\<open>null\<close>
  (reading the id of \<^verbatim>\<open>null\<close> raises); for the strings, numbers and booleans that ids are,
  strict equality is equality.
\<close>

theorem duplicate_id_leaves_history_unchanged:
  assumes "messages st = JArr h" and "JNull \<notin> set h" and "valid_record r"
    and "\<exists>m \<in> set h. strict_eq (record_id m) (record_id r)"
  shows "append_updater e tp r st = Inr st
         \<and> handle_record e tp r st = Inr st
         \<and> (trim l \<noteq> [] \<and> JSON_parse e l = Some r \<longrightarrow> process_line e tp l st = st)"
proof -
  have nn: "r \<noteq> JNull" using assms(3) by (rule valid_record_not_null)
  have a: "append_updater e tp r st = Inr st"
    using assms(1,2,4) nn some_same_id_True [of r h] by (simp add: append_updater_def)
  then have b: "handle_record e tp r st = Inr st"
    using assms(3) by (simp add: handle_record_valid setMessages_def)
  then show ?thesis using a by (simp add: process_line_def)
qed

lemma take_append_take: "take n (xs @ take n ys) = take n (xs @ ys)"
  by (simp add: min_def)




section \<open>Clearing\<close>

lemma history_key_inj: "history_key t = history_key t' \<longleftrightarrow> t = t'"
  by (simp add: history_key_def)

text \<open>
  Claim C9. Clearing the history of the current topic empties the history in memory and
  removes the entry stored under the key of that topic; the entry stored under the key of
  every other topic is what it was. A load after the clearing gives the empty history.
\<close>

theorem clear_history_frame:
  "messages (handleClearMessages st) = JArr []
   \<and> localStorage (handleClearMessages st) (history_key (topic st)) = None
   \<and> (\<forall>t'. t' \<noteq> topic st \<longrightarrow>
         localStorage (handleClearMessages st) (history_key t') = localStorage st (history_key t'))
   \<and> messages (load_history e (handleClearMessages st)) = JArr []"
  by (simp add: handleClearMessages_def history_key_inj load_history_def load_try_def)

section \<open>Loading\<close>

text \<open>
  Claim C8. Loading never raises: \<open>load_history\<close> and \<open>init_previousTopics\<close> return a
  value in every case, and the value is the empty sequence when nothing is stored, when
  the stored text does not parse, and more generally whenever the body of the
  \<^verbatim>\<open>try\<close> block raises.
\<close>

theorem load_degrades_to_empty:
  "(localStorage st (history_key (topic st)) = None \<longrightarrow>
       messages (load_history e st) = JArr [])
   \<and> (\<forall>saved. localStorage st (history_key (topic st)) = Some saved \<and> JSON_parse e saved = None
         \<longrightarrow> messages (load_history e st) = JArr [])
   \<and> (\<forall>err. load_try e (localStorage st) (history_key (topic st)) = Inl err
         \<longrightarrow> messages (load_history e st) = JArr [])
   \<and> (store ''ntfy-previous-topics'' = None \<longrightarrow> init_previousTopics e store = JArr [])
   \<and> (\<forall>saved. store ''ntfy-previous-topics'' = Some saved \<and> JSON_parse e saved = None
         \<longrightarrow> init_previousTopics e store = JArr [])
   \<and> (\<forall>err. load_try e store ''ntfy-previous-topics'' = Inl err
         \<longrightarrow> init_previousTopics e store = JArr [])"
  by (simp add: load_history_def load_try_def init_previousTopics_def)

section \<open>Empty topic\<close>

text \<open>
  Claim C6. With a topic that is empty (or blank), \<^verbatim>\<open>subscribe\<close> only aborts the previous
  controller and reports: \<^verbatim>\<open>connected\<close> is false, the error is the validation message, no
  URL is requested, and the history, the store and the console are what they were.
\<close>

theorem empty_topic_rejected:
  assumes "trim (topic st) = []"
  shows "subscribe e st
           = (abort_current st)\<lparr>connected := False, errorInfo := Some ''Topic cannot be empty.''\<rparr>
         \<and> connected (subscribe e st) = False
         \<and> errorInfo (subscribe e st) = Some ''Topic cannot be empty.''
         \<and> requests (subscribe e st) = requests st
         \<and> messages (subscribe e st) = messages st
         \<and> localStorage (subscribe e st) = localStorage st
         \<and> console (subscribe e st) = console st"
  using assms by (simp add: subscribe_def abort_current_def)

section \<open>What the processing of lines leaves alone\<close>

lemma append_updater_other:
  "append_updater e tp r st = Inr st' \<Longrightarrow>
     connected st' = connected st \<and> errorInfo st' = errorInfo st
     \<and> abortControllerRef st' = abortControllerRef st \<and> requests st' = requests st
     \<and> console st' = console st \<and> uncaught st' = uncaught st"
  by (auto simp: append_updater_def Let_def split: json.splits sum.splits bool.splits)

lemma setMessages_append_other:
  "connected (setMessages (append_updater e tp r) st) = connected st
   \<and> errorInfo (setMessages (append_updater e tp r) st) = errorInfo st
   \<and> abortControllerRef (setMessages (append_updater e tp r) st) = abortControllerRef st
   \<and> requests (setMessages (append_updater e tp r) st) = requests st
   \<and> console (setMessages (append_updater e tp r) st) = console st"
proof (cases "append_updater e tp r st")
  case (Inl err)
  then show ?thesis by (simp add: setMessages_def)
next
  case (Inr st')
  then show ?thesis using append_updater_other [OF Inr] by (simp add: setMessages_def)
qed

lemma handle_record_other:
  "handle_record e tp r st = Inr st' \<Longrightarrow>
     connected st' = connected st \<and> errorInfo st' = errorInfo st
     \<and> abortControllerRef st' = abortControllerRef st \<and> requests st' = requests st
     \<and> console st' = console st"
  using setMessages_append_other [of e tp r st]
  by (auto simp: handle_record_def split: sum.splits bool.splits)

lemma process_line_other:
  "connected (process_line e tp l st) = connected st
   \<and> errorInfo (process_line e tp l st) = errorInfo st
   \<and> abortControllerRef (process_line e tp l st) = abortControllerRef st
   \<and> requests (process_line e tp l st) = requests st"
proof (cases "JSON_parse e l")
  case None
  then show ?thesis by (simp add: process_line_def)
next
  case (Some r)
  show ?thesis
  proof (cases "handle_record e tp r st")
    case (Inl err)
    with Some show ?thesis by (simp add: process_line_def)
  next
    case (Inr st')
    with Some handle_record_other [OF Inr] show ?thesis by (simp add: process_line_def)
  qed
qed

lemma process_lines_other:
  "connected (process_lines e tp ls st) = connected st
   \<and> errorInfo (process_lines e tp ls st) = errorInfo st
   \<and> abortControllerRef (process_lines e tp ls st) = abortControllerRef st
   \<and> requests (process_lines e tp ls st) = requests st"
  by (induction ls arbitrary: st) (simp_all add: process_line_other)

section \<open>The exits of the read loop\<close>

lemma read_loop_reading:
  "read_loop e u tp evs b st = (Reading b', s) \<Longrightarrow>
     connected s = connected st \<and> errorInfo s = errorInfo st \<and> requests s = requests st"
proof (induction e u tp evs b st rule: read_loop.induct)
  case (1 e fetchUrl tp buffer st)
  then show ?case by simp
next
  case (2 e fetchUrl tp evs buffer st)
  then show ?case by (simp add: abort_current_def)
next
  case (3 e fetchUrl tp evs buffer st)
  then show ?case by simp
next
  case (4 e fetchUrl tp name evs buffer st)
  then show ?case by simp
next
  case (5 e fetchUrl tp val evs buffer st)
  then show ?case by (simp add: process_lines_other)
qed

lemma read_loop_requests:
  "requests (snd (read_loop e u tp evs b st)) = requests st"
  by (induction e u tp evs b st rule: read_loop.induct)
     (simp_all add: abort_current_def subscribe_catch_def process_lines_other)

lemma read_loop_append:
  "read_loop e u tp pre b st = (Reading b', s) \<Longrightarrow>
     read_loop e u tp (pre @ evs) b st = read_loop e u tp evs b' s"
  by (induction e u tp pre b st rule: read_loop.induct) simp_all

text \<open>
  Claim C5. Let the loop be still reading, in state \<open>s\<close>, after the events \<open>pre\<close>; up to
  there \<^verbatim>\<open>connected\<close> and \<^verbatim>\<open>errorInfo\<close> have not changed. If the loop then exits by a
  cancellation (the body ends while the controller is aborted, or the read raises an
  AbortError), the final state is \<open>s\<close>: nothing is reported. If the body ends while the
  controller is not aborted, \<^verbatim>\<open>connected\<close> becomes false and the report is
  "Connection closed."; if the read raises any other error, \<^verbatim>\<open>connected\<close> becomes false
  and the report is the connection failure.
\<close>

theorem cancellation_suppresses_reports:
  assumes "read_loop e u tp pre b st = (Reading b', s)"
  shows "connected s = connected st \<and> errorInfo s = errorInfo st
    \<and> (abortControllerRef s = Some True \<longrightarrow>
          read_loop e u tp (pre @ Done # evs) b st = (Exited, s))
    \<and> read_loop e u tp (pre @ ReadThrows ''AbortError'' # evs) b st = (Exited, s)
    \<and> (abortControllerRef s \<noteq> Some True \<longrightarrow>
          read_loop e u tp (pre @ Done # evs) b st
            = (Exited, s\<lparr>connected := False, errorInfo := Some ''Connection closed.''\<rparr>))
    \<and> (name \<noteq> ''AbortError'' \<longrightarrow>
          read_loop e u tp (pre @ ReadThrows name # evs) b st
            = (Exited, s\<lparr>console := console s @ [SubscriptionFailed u],
                          connected := False,
                          errorInfo := Some ''Connection failed. Check console.''\<rparr>))"
  using read_loop_reading [OF assms] read_loop_append [OF assms]
  by (simp add: subscribe_catch_def)

lemma subscribe_requests_nonblank:
  "trim (topic st) \<noteq> [] \<Longrightarrow>
     requests (subscribe e st)
       = requests st @ [strip_slash (server st) @ ''/'' @ topic st @ ''/json'']"
  by (simp add: subscribe_def abort_current_def load_history_def Let_def subscribe_catch_def
        read_loop_requests split: fetch_outcome.splits sum.splits)

section \<open>Which records are accepted\<close>

lemma process_line_changes:
  "messages (process_line e tp l st) \<noteq> messages st \<Longrightarrow>
     \<exists>r. JSON_parse e l = Some r \<and> valid_record r"
  by (auto simp: process_line_def handle_record_def valid_record_def
        split: if_splits option.splits sum.splits bool.splits)

text \<open>
  Claim C7. A line changes the history only if it parses to an object that has both an
  \<^verbatim>\<open>id\<close> and a \<^verbatim>\<open>message\<close> (and both truthy). A record in which one of the two is
  missing leaves the whole state as it was; more generally a record that is not valid
  changes neither the history, nor the store, nor the reported error, nor \<^verbatim>\<open>connected\<close>.
  A line that does not parse is logged and skipped, the lines after it are processed, and
  whatever the chunks contain the loop is still reading after them.
\<close>

theorem only_records_with_id_and_message_accepted:
  "(messages (process_line e tp l st) \<noteq> messages st \<longrightarrow>
      (\<exists>kvs i m. JSON_parse e l = Some (JObj kvs) \<and> map_of kvs ''id'' = Some i
          \<and> map_of kvs ''message'' = Some m \<and> truthy (Some i) \<and> truthy (Some m)))
   \<and> (JSON_parse e l = Some r
        \<and> (get_prop r ''id'' = Inr None \<or> get_prop r ''message'' = Inr None)
        \<longrightarrow> process_line e tp l st = st)
   \<and> (JSON_parse e l = Some r \<and> \<not> valid_record r \<longrightarrow>
        messages (process_line e tp l st) = messages st
        \<and> localStorage (process_line e tp l st) = localStorage st
        \<and> errorInfo (process_line e tp l st) = errorInfo st
        \<and> connected (process_line e tp l st) = connected st)
   \<and> (trim l \<noteq> [] \<and> JSON_parse e l = None \<longrightarrow>
        process_line e tp l st = st\<lparr>console := console st @ [StreamParseFailed l]\<rparr>
        \<and> process_lines e tp (l # ls) st
            = process_lines e tp ls (st\<lparr>console := console st @ [StreamParseFailed l]\<rparr>))
   \<and> fst (read_loop e u tp (map Chunk vals) b st) = Reading (final_buffer b vals)"
proof -
  have a: "messages (process_line e tp l st) \<noteq> messages st \<longrightarrow>
      (\<exists>kvs i m. JSON_parse e l = Some (JObj kvs) \<and> map_of kvs ''id'' = Some i
          \<and> map_of kvs ''message'' = Some m \<and> truthy (Some i) \<and> truthy (Some m))"
  proof
    assume ch: "messages (process_line e tp l st) \<noteq> messages st"
    then obtain r where r: "JSON_parse e l = Some r" and v: "valid_record r"
      using process_line_changes by blast
    from v obtain kvs where k: "r = JObj kvs" and ti: "truthy (map_of kvs ''id'')"
      and tm: "truthy (map_of kvs ''message'')"
      by (auto simp: valid_record_iff)
    from ti obtain i where i: "map_of kvs ''id'' = Some i" by (cases "map_of kvs ''id''") auto
    from tm obtain m where m: "map_of kvs ''message'' = Some m"
      by (cases "map_of kvs ''message''") auto
    show "\<exists>kvs i m. JSON_parse e l = Some (JObj kvs) \<and> map_of kvs ''id'' = Some i
          \<and> map_of kvs ''message'' = Some m \<and> truthy (Some i) \<and> truthy (Some m)"
      using r k i m ti tm by auto
  qed
  have b: "JSON_parse e l = Some r
        \<and> (get_prop r ''id'' = Inr None \<or> get_prop r ''message'' = Inr None)
        \<longrightarrow> process_line e tp l st = st"
    by (cases r) (auto simp: process_line_def handle_record_def has_id_and_message_def)
  have c: "JSON_parse e l = Some r \<and> \<not> valid_record r \<longrightarrow>
        messages (process_line e tp l st) = messages st
        \<and> localStorage (process_line e tp l st) = localStorage st
        \<and> errorInfo (process_line e tp l st) = errorInfo st
        \<and> connected (process_line e tp l st) = connected st"
    by (auto simp: process_line_def handle_record_def valid_record_def
          split: sum.splits bool.splits)
  have d: "trim l \<noteq> [] \<and> JSON_parse e l = None \<longrightarrow>
        process_line e tp l st = st\<lparr>console := console st @ [StreamParseFailed l]\<rparr>
        \<and> process_lines e tp (l # ls) st
            = process_lines e tp ls (st\<lparr>console := console st @ [StreamParseFailed l]\<rparr>)"
    by (simp add: process_line_def)
  have f: "fst (read_loop e u tp (map Chunk vals) b st) = Reading (final_buffer b vals)"
    by (simp add: read_loop_chunks)
  show ?thesis using a b c d f by blast
qed

section \<open>The recent topics\<close>

lemma not_strict_eq_str: "(\<not> strict_eq (Some x) (Some (JStr t))) = (x \<noteq> JStr t)"
  by (cases x) auto

lemma recordTopicUse_array:
  assumes "previousTopics st = JArr ts" and "trim t \<noteq> []"
  shows "previousTopics (recordTopicUse e (setTopic t st))
           = JArr (take 10 (JStr (trim t) # filter (\<lambda>x. x \<noteq> JStr (trim t)) ts))
         \<and> localStorage (recordTopicUse e (setTopic t st)) ''ntfy-previous-topics''
             = Some (JSON_stringify e
                 (JArr (take 10 (JStr (trim t) # filter (\<lambda>x. x \<noteq> JStr (trim t)) ts))))"
  using assms
  by (simp add: recordTopicUse_def setTopic_def topics_updater_def Let_def not_strict_eq_str)

lemma use_topics_fresh:
  assumes "previousTopics st = JArr (map JStr ps)"
    and "distinct us" and "\<forall>x \<in> set us. trim x = x \<and> x \<noteq> []"
    and "set us \<inter> set ps = {}" and "length ps \<le> 10"
  shows "previousTopics (use_topics e us st) = JArr (map JStr (take 10 (rev us @ ps)))"
  using assms
proof (induction us arbitrary: ps st)
  case Nil
  then show ?case by simp
next
  case (Cons u us)
  let ?st1 = "recordTopicUse e (setTopic u st)"
  let ?ps1 = "take 10 (u # ps)"
  have u: "trim u = u" "u \<noteq> []" "u \<notin> set ps" using Cons.prems by auto
  have keep: "filter (\<lambda>x. x \<noteq> JStr u) (map JStr ps) = map JStr ps"
    using u(3) by (induction ps) auto
  have "previousTopics ?st1
          = JArr (take 10 (JStr (trim u) # filter (\<lambda>x. x \<noteq> JStr (trim u)) (map JStr ps)))"
    using recordTopicUse_array [of st "map JStr ps" u e] Cons.prems(1) u by simp
  then have p1: "previousTopics ?st1 = JArr (map JStr ?ps1)"
    using keep u(1) by (simp add: take_map)
  have sub: "set ?ps1 \<subseteq> insert u (set ps)"
    using set_take_subset [of 10 "u # ps"] by simp
  have p4: "set us \<inter> set ?ps1 = {}" using sub Cons.prems(2,4) by auto
  have ih: "previousTopics (use_topics e us ?st1) = JArr (map JStr (take 10 (rev us @ ?ps1)))"
    using p1 Cons.prems(2,3) p4 by (intro Cons.IH) auto
  have "take 10 (rev us @ ?ps1) = take 10 (rev (u # us) @ ps)"
    using take_append_take [of 10 "rev us" "u # ps"] by simp
  then show ?case using ih by simp
qed

lemma use_topics_append:
  "use_topics e (xs @ ys) st = use_topics e ys (use_topics e xs st)"
  by (induction xs arbitrary: st) auto

lemma distinct_take_filter:
  "distinct ts \<Longrightarrow> distinct (take 10 (JStr s # filter (\<lambda>x. x \<noteq> JStr s) ts))"
proof -
  assume "distinct ts"
  then have "distinct (JStr s # filter (\<lambda>x. x \<noteq> JStr s) ts)" by simp
  then show ?thesis by (rule distinct_take)
qed

text \<open>
  Claim C4, amended. For a topic that is not blank, the effect puts the trimmed topic at
  the front of the recent topics, removes its earlier occurrence, cuts the list to 10 and
  stores it; a list without repetition stays so. A blank topic changes nothing. From the
  empty list, the topics \<open>a\<close>, \<open>b\<close>, \<open>c\<close> and then \<open>a\<close> again give the order
  \<open>a\<close>, \<open>c\<close>, \<open>b\<close> (the most recent first), and 11 distinct topics leave the 10 most
  recent ones.
\<close>

theorem recent_topics_most_recent_first:
  "(previousTopics st = JArr ts \<and> trim t \<noteq> [] \<longrightarrow>
      previousTopics (recordTopicUse e (setTopic t st))
        = JArr (take 10 (JStr (trim t) # filter (\<lambda>x. x \<noteq> JStr (trim t)) ts))
      \<and> localStorage (recordTopicUse e (setTopic t st)) ''ntfy-previous-topics''
          = Some (JSON_stringify e (previousTopics (recordTopicUse e (setTopic t st))))
      \<and> length (take 10 (JStr (trim t) # filter (\<lambda>x. x \<noteq> JStr (trim t)) ts)) \<le> 10
      \<and> (distinct ts \<longrightarrow>
            distinct (take 10 (JStr (trim t) # filter (\<lambda>x. x \<noteq> JStr (trim t)) ts))))
   \<and> (trim t = [] \<longrightarrow> recordTopicUse e (setTopic t st) = setTopic t st)
   \<and> (previousTopics st = JArr [] \<and> distinct [a, b, c]
        \<and> (\<forall>x \<in> set [a, b, c]. trim x = x \<and> x \<noteq> []) \<longrightarrow>
        previousTopics (use_topics e [a, b, c, a] st) = JArr [JStr a, JStr c, JStr b])
   \<and> (previousTopics st = JArr [] \<and> distinct us \<and> length us = 11
        \<and> (\<forall>x \<in> set us. trim x = x \<and> x \<noteq> []) \<longrightarrow>
        previousTopics (use_topics e us st) = JArr (map JStr (take 10 (rev us))))"
proof -
  have one: "previousTopics st = JArr ts \<and> trim t \<noteq> [] \<longrightarrow>
      previousTopics (recordTopicUse e (setTopic t st))
        = JArr (take 10 (JStr (trim t) # filter (\<lambda>x. x \<noteq> JStr (trim t)) ts))
      \<and> localStorage (recordTopicUse e (setTopic t st)) ''ntfy-previous-topics''
          = Some (JSON_stringify e (previousTopics (recordTopicUse e (setTopic t st))))
      \<and> length (take 10 (JStr (trim t) # filter (\<lambda>x. x \<noteq> JStr (trim t)) ts)) \<le> 10
      \<and> (distinct ts \<longrightarrow>
            distinct (take 10 (JStr (trim t) # filter (\<lambda>x. x \<noteq> JStr (trim t)) ts)))"
    using recordTopicUse_array [of st ts t e] distinct_take_filter [of ts "trim t"]
    by simp
  have blank: "trim t = [] \<longrightarrow> recordTopicUse e (setTopic t st) = setTopic t st"
    by (simp add: recordTopicUse_def setTopic_def)
  have abc: "previousTopics (use_topics e [a, b, c, a] st) = JArr [JStr a, JStr c, JStr b]"
    if h: "previousTopics st = JArr []" "distinct [a, b, c]"
      "\<forall>x \<in> set [a, b, c]. trim x = x \<and> x \<noteq> []"
  proof -
    let ?s3 = "use_topics e [a, b, c] st"
    have "previousTopics ?s3 = JArr (map JStr (take 10 (rev [a, b, c] @ [])))"
      using h by (intro use_topics_fresh) auto
    then have s3: "previousTopics ?s3 = JArr [JStr c, JStr b, JStr a]" by simp
    have ta: "trim a \<noteq> []" "trim a = a" using h(3) by auto
    have "previousTopics (recordTopicUse e (setTopic a ?s3))
            = JArr (take 10 (JStr (trim a) # filter (\<lambda>x. x \<noteq> JStr (trim a))
                                               [JStr c, JStr b, JStr a]))"
      using recordTopicUse_array [OF s3 ta(1), of e] by simp
    moreover have "use_topics e [a, b, c, a] st = recordTopicUse e (setTopic a ?s3)"
      using use_topics_append [of e "[a, b, c]" "[a]" st] by simp
    ultimately show ?thesis using ta(2) h(2) by auto
  qed
  have eleven: "previousTopics (use_topics e us st) = JArr (map JStr (take 10 (rev us)))"
    if h: "previousTopics st = JArr []" "distinct us"
      "\<forall>x \<in> set us. trim x = x \<and> x \<noteq> []"
  proof -
    have "previousTopics (use_topics e us st) = JArr (map JStr (take 10 (rev us @ [])))"
      using h by (intro use_topics_fresh) auto
    then show ?thesis by simp
  qed
  show ?thesis using one blank abc eleven by blast
qed

text \<open>
  Claim C4 as stated fails: after the topics a, b, c and a again the list is a, c, b and
  not a, b, c.
\<close>

theorem recent_topics_example_order:
  "previousTopics (use_topics ex_env [''a'', ''b'', ''c'', ''a''] ex_state)
     = JArr [JStr ''a'', JStr ''c'', JStr ''b'']
   \<and> previousTopics (use_topics ex_env [''a'', ''b'', ''c'', ''a''] ex_state)
     \<noteq> JArr [JStr ''a'', JStr ''b'', JStr ''c'']"
  by (simp add: recordTopicUse_def setTopic_def topics_updater_def Let_def ex_state_def
        trim_def is_space_def)

section \<open>The invariant of the history\<close>










section \<open>Eviction\<close>











section \<open>The statements on the example data\<close>

lemmas ex_defs = ex_env_def ex_state_def ex_line1_def ex_line2_def ex_line3_def ex_line_bad_def
  ex_rec1_def ex_rec2_def ex_rec3_def ex_text1_def ex_text21_def ex_line1b_def ex_rec1b_def

theorem line_framing_chunking_invariant_witness:
  "framed_lines [] ex_chunks = [ex_line1, ex_line2]
   \<and> framed_lines [] [concat ex_chunks] = [ex_line1, ex_line2]
   \<and> read_loop ex_env ''u'' ''news'' (map Chunk ex_chunks) [] ex_state
       = read_loop ex_env ''u'' ''news'' [Chunk (concat ex_chunks)] [] ex_state"
proof -
  have "butlast (split_nl (concat ex_chunks)) = [ex_line1, ex_line2]"
    by (simp add: ex_chunks_def ex_line1_def ex_line2_def)
  then show ?thesis
    using line_framing_chunking_invariant [of ex_chunks ex_env "''u''" "''news''" ex_state]
    by (simp add: frame_def)
qed


theorem duplicate_id_leaves_history_unchanged_witness:
  "messages ex_state1 = JArr [ex_rec1]
   \<and> JNull \<notin> set [ex_rec1]
   \<and> valid_record ex_rec1b
   \<and> (\<exists>m \<in> set [ex_rec1]. strict_eq (record_id m) (record_id ex_rec1b))
   \<and> trim ex_line1b \<noteq> []
   \<and> JSON_parse ex_env ex_line1b = Some ex_rec1b
   \<and> process_line ex_env ''news'' ex_line1b ex_state1 = ex_state1"
proof -
  have h1: "messages ex_state1 = JArr [ex_rec1]" by (simp add: ex_state1_def)
  have h2: "JNull \<notin> set [ex_rec1]" by (simp add: ex_rec1_def)
  have h3: "valid_record ex_rec1b"
    by (simp add: valid_record_def has_id_and_message_def ex_rec1b_def)
  have h4: "\<exists>m \<in> set [ex_rec1]. strict_eq (record_id m) (record_id ex_rec1b)"
    by (simp add: record_id_def ex_rec1_def ex_rec1b_def)
  have h5: "trim ex_line1b \<noteq> []" by (simp add: ex_line1b_def trim_def is_space_def)
  have h6: "JSON_parse ex_env ex_line1b = Some ex_rec1b" by (simp add: ex_defs)
  show ?thesis
    using duplicate_id_leaves_history_unchanged [OF h1 h2 h3 h4, where l = ex_line1b and e = ex_env and tp = "''news''"]
      h1 h2 h3 h4 h5 h6
    by blast
qed

theorem recent_topics_most_recent_first_witness:
  "previousTopics ex_state = JArr []
   \<and> trim '' news '' \<noteq> []
   \<and> previousTopics (recordTopicUse ex_env (setTopic '' news '' ex_state)) = JArr [JStr ''news'']
   \<and> trim ''  '' = []
   \<and> recordTopicUse ex_env (setTopic ''  '' ex_state) = setTopic ''  '' ex_state
   \<and> distinct [''a'', ''b'', ''c'']
   \<and> list_all (\<lambda>x. trim x = x \<and> x \<noteq> []) [''a'', ''b'', ''c'']
   \<and> previousTopics (use_topics ex_env [''a'', ''b'', ''c'', ''a''] ex_state)
       = JArr [JStr ''a'', JStr ''c'', JStr ''b'']
   \<and> distinct ex_topics11 \<and> length ex_topics11 = 11
   \<and> list_all (\<lambda>x. trim x = x \<and> x \<noteq> []) ex_topics11
   \<and> previousTopics (use_topics ex_env ex_topics11 ex_state)
       = JArr (map JStr [''t11'', ''t10'', ''t9'', ''t8'', ''t7'', ''t6'', ''t5'', ''t4'',
                         ''t3'', ''t2''])"
proof -
  have h1: "previousTopics ex_state = JArr []" by (simp add: ex_state_def)
  have h2: "trim '' news '' \<noteq> []" "trim '' news '' = ''news''"
    by (simp_all add: trim_def is_space_def)
  have h3: "trim ''  '' = []" by (simp add: trim_def is_space_def)
  have h4: "distinct [''a'', ''b'', ''c'']" by simp
  have h5: "\<forall>x \<in> set [''a'', ''b'', ''c'']. trim x = x \<and> x \<noteq> []"
    by (simp add: trim_def is_space_def)
  have h6: "distinct ex_topics11" "length ex_topics11 = 11"
    by (simp_all add: ex_topics11_def)
  have h7: "\<forall>x \<in> set ex_topics11. trim x = x \<and> x \<noteq> []"
    by (simp add: ex_topics11_def trim_def is_space_def)
  have h8: "take 10 (rev ex_topics11)
              = [''t11'', ''t10'', ''t9'', ''t8'', ''t7'', ''t6'', ''t5'', ''t4'', ''t3'', ''t2'']"
    by (simp add: ex_topics11_def)
  note t1 = recent_topics_most_recent_first
    [where st = ex_state and ts = "[]" and t = "'' news ''" and e = ex_env
       and a = "''a''" and b = "''b''" and c = "''c''" and us = ex_topics11]
  note t2 = recent_topics_most_recent_first
    [where st = ex_state and ts = "[]" and t = "''  ''" and e = ex_env
       and a = "''a''" and b = "''b''" and c = "''c''" and us = ex_topics11]
  have a: "previousTopics (recordTopicUse ex_env (setTopic '' news '' ex_state))
             = JArr [JStr ''news'']"
    using t1 h1 h2 by simp
  have b: "recordTopicUse ex_env (setTopic ''  '' ex_state) = setTopic ''  '' ex_state"
    using t2 h3 by blast
  have c: "previousTopics (use_topics ex_env [''a'', ''b'', ''c'', ''a''] ex_state)
       = JArr [JStr ''a'', JStr ''c'', JStr ''b'']"
    using t1 h1 h4 h5 by blast
  have d: "previousTopics (use_topics ex_env ex_topics11 ex_state)
       = JArr (map JStr (take 10 (rev ex_topics11)))"
    using t1 h1 h6 h7 by blast
  have l5: "list_all (\<lambda>x. trim x = x \<and> x \<noteq> []) [''a'', ''b'', ''c'']"
    using h5 by (simp only: list_all_iff)
  have l7: "list_all (\<lambda>x. trim x = x \<and> x \<noteq> []) ex_topics11"
    using h7 by (simp only: list_all_iff)
  show ?thesis using h1 h2(1) h3 h4 l5 h6 l7 a b c d [unfolded h8] by blast
qed

theorem cancellation_suppresses_reports_witness:
  "read_loop ex_env ''u'' ''news'' [AbortCalled] [] ex_conn = (Reading [], abort_current ex_conn)
   \<and> abortControllerRef (abort_current ex_conn) = Some True
   \<and> read_loop ex_env ''u'' ''news'' ([AbortCalled] @ [Done]) [] ex_conn
       = (Exited, abort_current ex_conn)
   \<and> read_loop ex_env ''u'' ''news'' ([AbortCalled] @ [ReadThrows ''AbortError'']) [] ex_conn
       = (Exited, abort_current ex_conn)
   \<and> errorInfo (abort_current ex_conn) = None
   \<and> read_loop ex_env ''u'' ''news'' [Chunk ''x''] [] ex_conn = (Reading ''x'', ex_conn)
   \<and> abortControllerRef ex_conn \<noteq> Some True
   \<and> read_loop ex_env ''u'' ''news'' ([Chunk ''x''] @ [Done]) [] ex_conn
       = (Exited, ex_conn\<lparr>connected := False, errorInfo := Some ''Connection closed.''\<rparr>)
   \<and> ''TypeError'' \<noteq> ''AbortError''
   \<and> read_loop ex_env ''u'' ''news'' ([Chunk ''x''] @ [ReadThrows ''TypeError'']) [] ex_conn
       = (Exited, ex_conn\<lparr>console := console ex_conn @ [SubscriptionFailed ''u''],
                            connected := False,
                            errorInfo := Some ''Connection failed. Check console.''\<rparr>)"
proof -
  have h1: "read_loop ex_env ''u'' ''news'' [AbortCalled] [] ex_conn
              = (Reading [], abort_current ex_conn)"
    by simp
  have h2: "abortControllerRef (abort_current ex_conn) = Some True"
    by (simp add: abort_current_def ex_conn_def)
  have h3: "read_loop ex_env ''u'' ''news'' [Chunk ''x''] [] ex_conn = (Reading ''x'', ex_conn)"
    by (simp add: frame_def)
  have h4: "abortControllerRef ex_conn \<noteq> Some True" by (simp add: ex_conn_def)
  have h5: "''TypeError'' \<noteq> ''AbortError''" by simp
  have h6: "errorInfo (abort_current ex_conn) = None"
    by (simp add: abort_current_def ex_conn_def ex_state_def)
  note t1 = cancellation_suppresses_reports [OF h1, where evs = "[]" and name = "''TypeError''"]
  note t2 = cancellation_suppresses_reports [OF h3, where evs = "[]" and name = "''TypeError''"]
  show ?thesis using t1 t2 h1 h2 h3 h4 h5 h6 by blast
qed

theorem empty_topic_rejected_witness:
  "trim (topic (ex_state\<lparr>topic := []\<rparr>)) = []
   \<and> connected (subscribe ex_env (ex_state\<lparr>topic := []\<rparr>)) = False
   \<and> errorInfo (subscribe ex_env (ex_state\<lparr>topic := []\<rparr>)) = Some ''Topic cannot be empty.''
   \<and> requests (subscribe ex_env (ex_state\<lparr>topic := []\<rparr>)) = []
   \<and> messages (subscribe ex_env (ex_state\<lparr>topic := []\<rparr>)) = JArr []
   \<and> requests (subscribe ex_env ex_state) = [''https://ntfy.sh/news/json'']"
proof -
  have h: "trim (topic (ex_state\<lparr>topic := []\<rparr>)) = []" by (simp add: trim_def)
  have r: "requests (ex_state\<lparr>topic := []\<rparr>) = []" "messages (ex_state\<lparr>topic := []\<rparr>) = JArr []"
    by (simp_all add: ex_state_def)
  have n: "requests (subscribe ex_env ex_state) = [''https://ntfy.sh/news/json'']"
    using subscribe_requests_nonblank [of ex_state ex_env]
    by (simp add: ex_state_def trim_def is_space_def strip_slash_def)
  note t = empty_topic_rejected [OF h, of ex_env]
  have a: "connected (subscribe ex_env (ex_state\<lparr>topic := []\<rparr>)) = False"
    "errorInfo (subscribe ex_env (ex_state\<lparr>topic := []\<rparr>)) = Some ''Topic cannot be empty.''"
    "requests (subscribe ex_env (ex_state\<lparr>topic := []\<rparr>)) = requests (ex_state\<lparr>topic := []\<rparr>)"
    "messages (subscribe ex_env (ex_state\<lparr>topic := []\<rparr>)) = messages (ex_state\<lparr>topic := []\<rparr>)"
    using t by blast+
  show ?thesis using a h r n by simp
qed

theorem only_records_with_id_and_message_accepted_witness:
  "messages (process_line ex_env ''news'' ex_line1 ex_state) \<noteq> messages ex_state
   \<and> (\<exists>kvs i m. JSON_parse ex_env ex_line1 = Some (JObj kvs) \<and> map_of kvs ''id'' = Some i
          \<and> map_of kvs ''message'' = Some m \<and> truthy (Some i) \<and> truthy (Some m))
   \<and> JSON_parse ex_env ex_line3 = Some ex_rec3
   \<and> get_prop ex_rec3 ''message'' = Inr None
   \<and> \<not> valid_record ex_rec3
   \<and> process_line ex_env ''news'' ex_line3 ex_state = ex_state
   \<and> trim ex_line_bad \<noteq> [] \<and> JSON_parse ex_env ex_line_bad = None
   \<and> process_line ex_env ''news'' ex_line_bad ex_state
       = ex_state\<lparr>console := console ex_state @ [StreamParseFailed ex_line_bad]\<rparr>"
proof -
  have h1: "messages (process_line ex_env ''news'' ex_line1 ex_state) \<noteq> messages ex_state"
    by (simp add: process_line_def handle_record_def has_id_and_message_def setMessages_def
          append_updater_def trim_def is_space_def ex_defs)
  have h2: "JSON_parse ex_env ex_line3 = Some ex_rec3" by (simp add: ex_defs)
  have h3: "get_prop ex_rec3 ''message'' = Inr None" by (simp add: ex_rec3_def)
  have h4: "\<not> valid_record ex_rec3"
    by (simp add: valid_record_def has_id_and_message_def ex_rec3_def)
  have h5: "trim ex_line_bad \<noteq> []" by (simp add: ex_line_bad_def trim_def is_space_def)
  have h6: "JSON_parse ex_env ex_line_bad = None" by (simp add: ex_defs)
  note t1 = only_records_with_id_and_message_accepted
    [where e = ex_env and tp = "''news''" and l = ex_line1 and st = ex_state and r = ex_rec1]
  note t3 = only_records_with_id_and_message_accepted
    [where e = ex_env and tp = "''news''" and l = ex_line3 and st = ex_state and r = ex_rec3]
  note t4 = only_records_with_id_and_message_accepted
    [where e = ex_env and tp = "''news''" and l = ex_line_bad and st = ex_state and r = ex_rec3]
  have a: "\<exists>kvs i m. JSON_parse ex_env ex_line1 = Some (JObj kvs) \<and> map_of kvs ''id'' = Some i
          \<and> map_of kvs ''message'' = Some m \<and> truthy (Some i) \<and> truthy (Some m)"
    using t1 h1 by blast
  have b: "process_line ex_env ''news'' ex_line3 ex_state = ex_state"
    using t3 h2 h3 by blast
  have c: "process_line ex_env ''news'' ex_line_bad ex_state
       = ex_state\<lparr>console := console ex_state @ [StreamParseFailed ex_line_bad]\<rparr>"
    using t4 h5 h6 by blast
  show ?thesis using h1 h2 h3 h4 h5 h6 a b c by blast
qed

theorem load_degrades_to_empty_witness:
  "localStorage ex_state (history_key (topic ex_state)) = None
   \<and> messages (load_history ex_env ex_state) = JArr []
   \<and> localStorage (ex_state1\<lparr>localStorage := [history_key ''news'' \<mapsto> ex_line_bad]\<rparr>)
        (history_key (topic (ex_state1\<lparr>localStorage := [history_key ''news'' \<mapsto> ex_line_bad]\<rparr>)))
       = Some ex_line_bad
   \<and> JSON_parse ex_env ex_line_bad = None
   \<and> messages (load_history ex_env
                  (ex_state1\<lparr>localStorage := [history_key ''news'' \<mapsto> ex_line_bad]\<rparr>)) = JArr []
   \<and> init_previousTopics ex_env Map.empty = JArr []
   \<and> init_previousTopics ex_env [''ntfy-previous-topics'' \<mapsto> ex_line_bad] = JArr []"
proof -
  let ?bad = "ex_state1\<lparr>localStorage := [history_key ''news'' \<mapsto> ex_line_bad]\<rparr>"
  have h1: "localStorage ex_state (history_key (topic ex_state)) = None"
    by (simp add: ex_state_def)
  have h2: "localStorage ?bad (history_key (topic ?bad)) = Some ex_line_bad"
    by (simp add: ex_state1_def ex_state_def)
  have h3: "JSON_parse ex_env ex_line_bad = None" by (simp add: ex_defs)
  have h4: "[''ntfy-previous-topics'' \<mapsto> ex_line_bad] ''ntfy-previous-topics'' = Some ex_line_bad"
    by simp
  note t1 = load_degrades_to_empty [where st = ex_state and e = ex_env and store = Map.empty]
  note t2 = load_degrades_to_empty
    [where st = ?bad and e = ex_env and store = "[''ntfy-previous-topics'' \<mapsto> ex_line_bad]"]
  have a: "messages (load_history ex_env ex_state) = JArr []" using t1 h1 by blast
  have b: "messages (load_history ex_env ?bad) = JArr []" using t2 h2 h3 by blast
  have c: "init_previousTopics ex_env Map.empty = JArr []" using t1 by simp
  have d: "init_previousTopics ex_env [''ntfy-previous-topics'' \<mapsto> ex_line_bad] = JArr []"
    using t2 h3 h4 by blast
  show ?thesis using h1 h2 h3 a b c d by blast
qed

theorem clear_history_frame_witness:
  "localStorage ex_state1 (history_key ''news'') = Some ex_text1
   \<and> messages ex_state1 = JArr [ex_rec1]
   \<and> messages (handleClearMessages ex_state1) = JArr []
   \<and> localStorage (handleClearMessages ex_state1) (history_key ''news'') = None
   \<and> ''other'' \<noteq> topic ex_state1
   \<and> localStorage (handleClearMessages ex_state1) (history_key ''other'') = Some ex_text21"
proof -
  have h1: "localStorage ex_state1 (history_key ''news'') = Some ex_text1"
    "messages ex_state1 = JArr [ex_rec1]" "topic ex_state1 = ''news''"
    "localStorage ex_state1 (history_key ''other'') = Some ex_text21"
    by (simp_all add: ex_state1_def ex_state_def history_key_def)
  have h2: "''other'' \<noteq> topic ex_state1" using h1(3) by simp
  note t = clear_history_frame [where st = ex_state1 and e = ex_env]
  have "localStorage (handleClearMessages ex_state1) (history_key ''other'')
          = localStorage ex_state1 (history_key ''other'')"
    using t h2 by blast
  then show ?thesis using t h1 h2 by simp
qed





end
